theory Spec2Isabelle
  imports Complex_Main "HOL-Library.Word"
begin

section \<open>Common types (include/rcc/common/types.hpp)\<close>

text \<open>
  The enum \<^verbatim>\<open>common::CommandResultCode\<close>. Its member \<^verbatim>\<open>Busy\<close> is written
  \<open>Busy_code\<close> here, because \<^verbatim>\<open>common::RadioStatus\<close> has a member of the same name.
\<close>

datatype CommandResultCode = Ok | InvalidRange | Busy_code | Unavailable | InternalError

fun to_string_code :: "CommandResultCode \<Rightarrow> string" where
  "to_string_code Ok = ''ok''"
| "to_string_code InvalidRange = ''invalid_range''"
| "to_string_code Busy_code = ''busy''"
| "to_string_code Unavailable = ''unavailable''"
| "to_string_code InternalError = ''internal''"

record CommandResult =
  code :: CommandResultCode
  message :: string
  vendor_payload :: "string option"

datatype RadioStatus = Offline | Discovering | Ready | Busy | Recovering

fun to_string_status :: "RadioStatus \<Rightarrow> string" where
  "to_string_status Offline = ''offline''"
| "to_string_status Discovering = ''discovering''"
| "to_string_status Ready = ''ready''"
| "to_string_status Busy = ''busy''"
| "to_string_status Recovering = ''recovering''"

text \<open>
  \<^verbatim>\<open>int\<close> is a 32-bit machine integer: a word of 32 bits, read as a signed value
  by \<open>sint\<close>. \<^verbatim>\<open>double\<close> values are only stored,
  copied and handed back by the code below (no arithmetic and no comparison is done on
  them), so they are modelled as reals; NaN and the infinities have no counterpart.
\<close>

type_synonym int32 = "32 word"
type_synonym double = real

record RadioState =
  status :: RadioStatus
  channel_index :: "int32 option"
  power_watts :: "double option"

text \<open>The value of \<^verbatim>\<open>RadioState{}\<close>: the default member initialisers.\<close>

definition RadioState_default :: RadioState where
  "RadioState_default = \<lparr>status = Offline, channel_index = None, power_watts = None\<rparr>"


section \<open>The Silvus adapter (src/adapter/silvus_adapter.cpp, lines 1--60)\<close>

record CapabilityInfo =
  supported_frequencies_mhz :: "double list"
  power_range_watts :: "double \<times> double"

text \<open>
  A private data member \<^verbatim>\<open>name_\<close> of a class is the field \<open>m_name\<close> of its record
  (an Isabelle name cannot end in an underscore). The mutex is not modelled: every
  method body below runs under it, so each is one atomic step.
\<close>

record SilvusAdapter =
  m_id :: string
  m_endpoint :: string
  m_capabilities :: CapabilityInfo
  m_state :: RadioState

text \<open>The constructor \<^verbatim>\<open>SilvusAdapter(id, endpoint)\<close>.\<close>

definition SilvusAdapter_new :: "string \<Rightarrow> string \<Rightarrow> SilvusAdapter" where
  "SilvusAdapter_new i e =
     \<lparr>m_id = i, m_endpoint = e,
      m_capabilities = \<lparr>supported_frequencies_mhz = [2412, 2437, 2462],
                       power_range_watts = (1 / 10, 5)\<rparr>,
      m_state = RadioState_default\<lparr>status := Offline\<rparr>\<rparr>"

definition capabilities :: "SilvusAdapter \<Rightarrow> CapabilityInfo" where
  "capabilities a = m_capabilities a"

definition SilvusAdapter_state :: "SilvusAdapter \<Rightarrow> RadioState" where
  "SilvusAdapter_state a = m_state a"

text \<open>\<^verbatim>\<open>{.code = CommandResultCode::Ok}\<close>: the other members keep their defaults.\<close>

definition result_ok :: CommandResult where
  "result_ok = \<lparr>code = Ok, message = [], vendor_payload = None\<rparr>"

text \<open>
  Every method holds the adapter's mutex for its whole body. The \<open>_steps\<close> functions
  list the adapter after each assignment of the body, in program order; the method's
  final state is the last of them (the state at entry when the body assigns nothing).
\<close>

definition set_status :: "RadioStatus \<Rightarrow> SilvusAdapter \<Rightarrow> SilvusAdapter" where
  "set_status s a = a\<lparr>m_state := (m_state a)\<lparr>status := s\<rparr>\<rparr>"

definition connect_steps :: "SilvusAdapter \<Rightarrow> SilvusAdapter list" where
  "connect_steps a = [set_status Ready a]"

definition connect :: "SilvusAdapter \<Rightarrow> CommandResult \<times> SilvusAdapter" where
  "connect a = (result_ok, last (a # connect_steps a))"

definition set_power_steps :: "SilvusAdapter \<Rightarrow> double \<Rightarrow> SilvusAdapter list" where
  "set_power_steps a watts =
     (let a1 = a\<lparr>m_state := (m_state a)\<lparr>power_watts := Some watts\<rparr>\<rparr>;
          a2 = set_status Busy a1;
          a3 = set_status Ready a2
      in [a1, a2, a3])"

definition set_power :: "SilvusAdapter \<Rightarrow> double \<Rightarrow> CommandResult \<times> SilvusAdapter" where
  "set_power a watts = (result_ok, last (a # set_power_steps a watts))"

text \<open>\<^verbatim>\<open>(void)frequency_mhz;\<close>: the frequency is received and discarded.\<close>

definition set_channel_steps :: "SilvusAdapter \<Rightarrow> int32 \<Rightarrow> double \<Rightarrow> SilvusAdapter list" where
  "set_channel_steps a ci frequency_mhz =
     (let a1 = a\<lparr>m_state := (m_state a)\<lparr>channel_index := Some ci\<rparr>\<rparr>;
          a2 = set_status Busy a1;
          a3 = set_status Ready a2
      in [a1, a2, a3])"

definition set_channel :: "SilvusAdapter \<Rightarrow> int32 \<Rightarrow> double \<Rightarrow> CommandResult \<times> SilvusAdapter" where
  "set_channel a ci frequency_mhz = (result_ok, last (a # set_channel_steps a ci frequency_mhz))"

definition refresh_state_steps :: "SilvusAdapter \<Rightarrow> SilvusAdapter list" where
  "refresh_state_steps a =
     (if status (m_state a) = Offline then [set_status Ready a] else [])"

definition refresh_state :: "SilvusAdapter \<Rightarrow> CommandResult \<times> SilvusAdapter" where
  "refresh_state a = (result_ok, last (a # refresh_state_steps a))"

text \<open>The four mutating operations of the adapter interface, as data.\<close>

datatype adapter_op = Connect | SetPower double | SetChannel int32 double | RefreshState

fun op_steps :: "adapter_op \<Rightarrow> SilvusAdapter \<Rightarrow> SilvusAdapter list" where
  "op_steps Connect a = connect_steps a"
| "op_steps (SetPower w) a = set_power_steps a w"
| "op_steps (SetChannel ci f) a = set_channel_steps a ci f"
| "op_steps RefreshState a = refresh_state_steps a"

fun run_op :: "adapter_op \<Rightarrow> SilvusAdapter \<Rightarrow> CommandResult \<times> SilvusAdapter" where
  "run_op Connect a = connect a"
| "run_op (SetPower w) a = set_power a w"
| "run_op (SetChannel ci f) a = set_channel a ci f"
| "run_op RefreshState a = refresh_state a"

fun run_ops :: "adapter_op list \<Rightarrow> SilvusAdapter \<Rightarrow> SilvusAdapter" where
  "run_ops [] a = a"
| "run_ops (x # xs) a = run_ops xs (snd (run_op x a))"


section \<open>The state machine of the specification (section 4.3)\<close>

text \<open>
  The events of the table's middle column, and the table itself, row by row. This is the
  specification's side of the comparison: the adapter's code has no such table.
\<close>

datatype event =
  ConnectSuccess | RefreshSuccess | ConnectFailure | CommandInvoked | CommandCompletes
  | LinkLoss | RefreshExhausted | Teardown

definition table_4_3 :: "RadioStatus \<Rightarrow> event \<Rightarrow> RadioStatus \<Rightarrow> bool" where
  "table_4_3 s ev s' =
     ((s, ev, s') \<in> set
        [(Offline, ConnectSuccess, Ready), (Offline, RefreshSuccess, Ready),
         (Offline, ConnectFailure, Offline),
         (Ready, CommandInvoked, Busy),
         (Busy, CommandCompletes, Ready),
         (Ready, LinkLoss, Recovering), (Busy, LinkLoss, Recovering),
         (Recovering, RefreshSuccess, Ready),
         (Recovering, RefreshExhausted, Offline)]
      \<or> (ev = Teardown \<and> s' = Offline))"

text \<open>
  The event a status assignment of an operation stands for: \<^verbatim>\<open>connect\<close> and
  \<^verbatim>\<open>refresh_state\<close> always return \<^verbatim>\<open>Ok\<close>, so their assignment is the success of
  the connect or of the refresh; in a command the assignment of \<^verbatim>\<open>Busy\<close> is its
  invocation and the assignment that follows is its completion.
\<close>

fun is_command :: "adapter_op \<Rightarrow> bool" where
  "is_command (SetPower w) = True"
| "is_command (SetChannel ci f) = True"
| "is_command Connect = False"
| "is_command RefreshState = False"

fun event_of :: "adapter_op \<Rightarrow> RadioStatus \<Rightarrow> event" where
  "event_of Connect s' = ConnectSuccess"
| "event_of RefreshState s' = RefreshSuccess"
| "event_of (SetPower w) s' = (if s' = Busy then CommandInvoked else CommandCompletes)"
| "event_of (SetChannel ci f) s' = (if s' = Busy then CommandInvoked else CommandCompletes)"

text \<open>
  The successive values of the status field during one operation, starting with the
  value at entry, and the check that each change of value is a row of the table.
\<close>

definition status_trace :: "adapter_op \<Rightarrow> SilvusAdapter \<Rightarrow> RadioStatus list" where
  "status_trace x a = map (\<lambda>b. status (m_state b)) (a # op_steps x a)"

fun changes_permitted :: "adapter_op \<Rightarrow> RadioStatus list \<Rightarrow> bool" where
  "changes_permitted x (s # s' # rest) =
     ((s = s' \<or> table_4_3 s (event_of x s') s') \<and> changes_permitted x (s' # rest))"
| "changes_permitted x rest = True"

definition op_follows_table :: "adapter_op \<Rightarrow> SilvusAdapter \<Rightarrow> bool" where
  "op_follows_table x a = changes_permitted x (status_trace x a)"


section \<open>The radio manager (src/radio/radio_manager.cpp, lines 1--93)\<close>

text \<open>
  Adapters are shared objects: \<^verbatim>\<open>AdapterPtr\<close> is a \<^verbatim>\<open>shared_ptr\<close>, and
  \<^verbatim>\<open>get_adapter\<close> hands out a second reference to the object a descriptor holds. The
  store of adapter objects is a list, an address is an index into it, and
  \<^verbatim>\<open>nullptr\<close> is \<open>None\<close>. Objects are never removed from the store (an address is
  never reused), so an object whose last reference is gone just stays behind.
  Following a pointer that is null or not in the store has no defined
  behaviour in C++: \<open>deref\<close> answers \<open>None\<close> there, and so does every function
  that would do it.
\<close>

type_synonym AdapterPtr = "nat option"
type_synonym adapter_store = "SilvusAdapter list"

definition make_shared :: "adapter_store \<Rightarrow> SilvusAdapter \<Rightarrow> AdapterPtr \<times> adapter_store" where
  "make_shared h a = (Some (length h), h @ [a])"

definition deref :: "adapter_store \<Rightarrow> AdapterPtr \<Rightarrow> SilvusAdapter option" where
  "deref h p =
     (case p of None \<Rightarrow> None
      | Some n \<Rightarrow> if n < length h then Some (h ! n) else None)"

definition assign :: "adapter_store \<Rightarrow> AdapterPtr \<Rightarrow> SilvusAdapter \<Rightarrow> adapter_store" where
  "assign h p a = (case p of None \<Rightarrow> h | Some n \<Rightarrow> h[n := a])"

text \<open>A call of an adapter method through a pointer: the object is updated in place.\<close>

definition call_adapter ::
  "adapter_store \<Rightarrow> AdapterPtr \<Rightarrow> adapter_op \<Rightarrow> (CommandResult \<times> adapter_store) option" where
  "call_adapter h p x =
     (case deref h p of None \<Rightarrow> None
      | Some a \<Rightarrow> Some (fst (run_op x a), assign h p (snd (run_op x a))))"

text \<open>\<^verbatim>\<open>config::RadioProfile\<close> and the member of \<^verbatim>\<open>config::Configuration\<close> that is read.\<close>

record RadioProfile =
  profile_id :: string
  profile_adapter :: string
  profile_endpoint :: string

record Configuration =
  container_id :: string
  deployment :: string
  radios :: "RadioProfile list"

record RadioDescriptor =
  descriptor_id :: string
  adapter_type :: string
  adapter :: AdapterPtr
  state :: RadioState

text \<open>
  \<^verbatim>\<open>radios_\<close> is a \<^verbatim>\<open>std::unordered_map\<close>: here a list of pairs with \<open>map_of\<close> for
  \<^verbatim>\<open>find\<close>. \<^verbatim>\<open>emplace\<close> inserts only when the key is absent. The order in which the
  C++ container is traversed is unspecified; the list is traversed in insertion order.
\<close>

type_synonym radio_map = "(string \<times> RadioDescriptor) list"

definition emplace :: "radio_map \<Rightarrow> string \<Rightarrow> RadioDescriptor \<Rightarrow> radio_map" where
  "emplace rs k d = (if map_of rs k = None then rs @ [(k, d)] else rs)"

record RadioManager =
  m_radios :: radio_map
  m_active_radio :: "string option"

text \<open>The body of the loop of \<^verbatim>\<open>load_from_config\<close>, and the loop.\<close>

fun load_radios :: "RadioProfile list \<Rightarrow> adapter_store \<times> radio_map \<Rightarrow> adapter_store \<times> radio_map" where
  "load_radios [] (h, rs) = (h, rs)"
| "load_radios (radio # rest) (h, rs) =
     (if profile_adapter radio = ''silvus'' then
        (let a = SilvusAdapter_new (profile_id radio) (profile_endpoint radio);
             (p, h') = make_shared h a;
             descriptor = \<lparr>descriptor_id = profile_id radio,
                           adapter_type = profile_adapter radio,
                           adapter = p,
                           state = SilvusAdapter_state a\<rparr>
         in load_radios rest (h', emplace rs (profile_id radio) descriptor))
      else load_radios rest (h, rs))"

definition load_from_config ::
  "Configuration \<Rightarrow> adapter_store \<times> RadioManager \<Rightarrow> adapter_store \<times> RadioManager" where
  "load_from_config config hm =
     (let (h', rs) = load_radios (radios config) (fst hm, [])
      in (h', (snd hm)\<lparr>m_radios := rs\<rparr>))"

text \<open>The constructor: both members start empty, then \<^verbatim>\<open>load_from_config\<close> runs.\<close>

definition RadioManager_new :: "adapter_store \<Rightarrow> Configuration \<Rightarrow> adapter_store \<times> RadioManager" where
  "RadioManager_new h config =
     load_from_config config (h, \<lparr>m_radios = [], m_active_radio = None\<rparr>)"

fun start_loop :: "radio_map \<Rightarrow> adapter_store \<Rightarrow> (adapter_store \<times> radio_map) option" where
  "start_loop [] h = Some (h, [])"
| "start_loop ((k, descriptor) # rest) h =
     (case call_adapter h (adapter descriptor) Connect of
        None \<Rightarrow> None
      | Some (result, h') \<Rightarrow>
          (case (if code result = Ok
                 then (case deref h' (adapter descriptor) of
                         None \<Rightarrow> None
                       | Some a \<Rightarrow> Some (descriptor\<lparr>state := SilvusAdapter_state a\<rparr>))
                 else Some descriptor) of
             None \<Rightarrow> None
           | Some descriptor' \<Rightarrow>
               (case start_loop rest h' of
                  None \<Rightarrow> None
                | Some (h'', rest') \<Rightarrow> Some (h'', (k, descriptor') # rest'))))"

definition start :: "adapter_store \<times> RadioManager \<Rightarrow> (adapter_store \<times> RadioManager) option" where
  "start hm =
     (case start_loop (m_radios (snd hm)) (fst hm) of
        None \<Rightarrow> None
      | Some (h', rs) \<Rightarrow> Some (h', (snd hm)\<lparr>m_radios := rs\<rparr>))"

definition stop :: "RadioManager \<Rightarrow> RadioManager" where
  "stop m = m\<lparr>m_radios := [], m_active_radio := None\<rparr>"

definition list_radios :: "RadioManager \<Rightarrow> RadioDescriptor list" where
  "list_radios m = map snd (m_radios m)"

definition active_radio :: "RadioManager \<Rightarrow> string option" where
  "active_radio m = m_active_radio m"

definition set_active_radio :: "RadioManager \<Rightarrow> string \<Rightarrow> bool \<times> RadioManager" where
  "set_active_radio m i =
     (if map_of (m_radios m) i = None then (False, m)
      else (True, m\<lparr>m_active_radio := Some i\<rparr>))"

definition get_adapter :: "RadioManager \<Rightarrow> string \<Rightarrow> AdapterPtr" where
  "get_adapter m i =
     (case map_of (m_radios m) i of None \<Rightarrow> None | Some d \<Rightarrow> adapter d)"

definition get_state :: "adapter_store \<Rightarrow> RadioManager \<Rightarrow> string \<Rightarrow> RadioState option" where
  "get_state h m i =
     (case map_of (m_radios m) i of
        None \<Rightarrow> Some RadioState_default
      | Some d \<Rightarrow>
          (case deref h (adapter d) of
             None \<Rightarrow> None
           | Some a \<Rightarrow> Some (SilvusAdapter_state a)))"


text \<open>
  The operations on a manager as data, and a run of a sequence of them.
  \<^verbatim>\<open>load_from_config\<close> is a private member function: the only call of it in the
  program is the one in the constructor.
\<close>

datatype registry_op = SetActiveRadio string | Stop | Start | LoadFromConfig Configuration

fun is_public :: "registry_op \<Rightarrow> bool" where
  "is_public (LoadFromConfig c) = False"
| "is_public x = True"

fun run_registry_op ::
  "registry_op \<Rightarrow> adapter_store \<times> RadioManager \<Rightarrow> (adapter_store \<times> RadioManager) option" where
  "run_registry_op (SetActiveRadio i) hm = Some (fst hm, snd (set_active_radio (snd hm) i))"
| "run_registry_op Stop hm = Some (fst hm, stop (snd hm))"
| "run_registry_op Start hm = start hm"
| "run_registry_op (LoadFromConfig c) hm = Some (load_from_config c hm)"

fun run_registry_ops ::
  "registry_op list \<Rightarrow> adapter_store \<times> RadioManager \<Rightarrow> (adapter_store \<times> RadioManager) option" where
  "run_registry_ops [] hm = Some hm"
| "run_registry_ops (x # xs) hm =
     (case run_registry_op x hm of None \<Rightarrow> None | Some hm' \<Rightarrow> run_registry_ops xs hm')"

text \<open>The active radio, when there is one, is a key of the descriptor map.\<close>

definition active_radio_known :: "RadioManager \<Rightarrow> bool" where
  "active_radio_known m =
     (case m_active_radio m of None \<Rightarrow> True | Some i \<Rightarrow> map_of (m_radios m) i \<noteq> None)"

text \<open>Every descriptor's adapter pointer refers to an object of the store.\<close>

definition adapters_live :: "adapter_store \<Rightarrow> radio_map \<Rightarrow> bool" where
  "adapters_live h rs = list_all (\<lambda>kd. deref h (adapter (snd kd)) \<noteq> None) rs"

definition registry_inv :: "adapter_store \<times> RadioManager \<Rightarrow> bool" where
  "registry_inv hm =
     (active_radio_known (snd hm) \<and> adapters_live (fst hm) (m_radios (snd hm)))"

text \<open>
  The states of store and manager a program can be in: after the constructor, after a
  public member function of the manager, and after a call of an adapter method through
  any pointer to a stored adapter (one that \<^verbatim>\<open>get_adapter\<close> returned at some
  time).
\<close>

inductive reachable :: "adapter_store \<times> RadioManager \<Rightarrow> bool" where
  constructed: "reachable (RadioManager_new h0 config)"
| member_call: "reachable hm \<Longrightarrow> is_public x \<Longrightarrow> run_registry_op x hm = Some hm'
                \<Longrightarrow> reachable hm'"
| adapter_call: "reachable (h, m) \<Longrightarrow> call_adapter h p x = Some (r, h')
                \<Longrightarrow> reachable (h', m)"


section \<open>The audit record (include/rcc/audit/audit_logger.hpp, lines 1--25)\<close>

text \<open>
  \<^verbatim>\<open>audit::AuditRecord\<close>, with a JSON value for its \<^verbatim>\<open>parameters\<close>. The member
  \<^verbatim>\<open>message\<close> is written \<open>audit_message\<close>, because \<^verbatim>\<open>common::CommandResult\<close>
  has a member of the same name. What \<^verbatim>\<open>AuditLogger::record\<close> does with a record
  (it serialises the record and hands the text to a logging library that is not part
  of the sources) is not modelled: the audit log below is the list of the records
  that \<^verbatim>\<open>AuditLogger::record\<close> has been called with.
\<close>

datatype json =
  JNull | JBool bool | JNumber real | JString string | JArray "json list"
  | JObject "(string \<times> json) list"

record AuditRecord =
  actor :: string
  action :: string
  radio_id :: string
  parameters :: json
  result :: CommandResultCode
  audit_message :: string


section \<open>The orchestrator (src/command/orchestrator.cpp)\<close>

text \<open>
  \<^verbatim>\<open>command::CommandResult\<close> has its own code enum, with \<^verbatim>\<open>Unauthorized\<close>.
\<close>

datatype Code =
  Code_Ok | Code_InvalidRange | Code_Busy | Code_Unavailable | Code_InternalError
  | Code_Unauthorized

record command_CommandResult =
  cmd_code :: Code
  cmd_message :: string

text \<open>
  What an orchestrator can reach through its four references: the configuration, the
  radio manager with the adapter objects, and the audit log (the records its audit
  logger has been called with); and the
  standard output it writes to. A line of output is kept as the call it reports, not as
  text. The telemetry hub is left out: no function below reads or writes it.
\<close>

datatype cout_line =
  SelectRadioCalled string | SetPowerCalled string double | SetChannelCalled string int32

record World =
  w_config :: Configuration
  w_adapters :: adapter_store
  w_radioManager :: RadioManager
  w_audit_log :: "AuditRecord list"
  w_cout :: "cout_line list"

definition selectRadio :: "World \<Rightarrow> string \<Rightarrow> command_CommandResult \<times> World" where
  "selectRadio w radioId =
     (\<lparr>cmd_code = Code_Ok, cmd_message = ''stub''\<rparr>,
      w\<lparr>w_cout := w_cout w @ [SelectRadioCalled radioId]\<rparr>)"

definition setPower :: "World \<Rightarrow> string \<Rightarrow> double \<Rightarrow> command_CommandResult \<times> World" where
  "setPower w radioId watts =
     (\<lparr>cmd_code = Code_Ok, cmd_message = ''stub''\<rparr>,
      w\<lparr>w_cout := w_cout w @ [SetPowerCalled radioId watts]\<rparr>)"

definition setChannel :: "World \<Rightarrow> string \<Rightarrow> int32 \<Rightarrow> command_CommandResult \<times> World" where
  "setChannel w radioId channelIndex =
     (\<lparr>cmd_code = Code_Ok, cmd_message = ''stub''\<rparr>,
      w\<lparr>w_cout := w_cout w @ [SetChannelCalled radioId channelIndex]\<rparr>)"

text \<open>The three commands as data, and the dispatch of one.\<close>

datatype command = SelectRadio string | SetPowerCmd string double | SetChannelCmd string int32

fun dispatch :: "command \<Rightarrow> World \<Rightarrow> command_CommandResult \<times> World" where
  "dispatch (SelectRadio i) w = selectRadio w i"
| "dispatch (SetPowerCmd i watts) w = setPower w i watts"
| "dispatch (SetChannelCmd i ci) w = setChannel w i ci"


section \<open>A configuration to run the code on\<close>

definition example_config :: Configuration where
  "example_config =
     \<lparr>container_id = ''c1'', deployment = ''lab'',
      radios = [\<lparr>profile_id = ''r1'', profile_adapter = ''silvus'',
                 profile_endpoint = ''10.0.0.1''\<rparr>,
                \<lparr>profile_id = ''r2'', profile_adapter = ''other'',
                 profile_endpoint = ''10.0.0.2''\<rparr>]\<rparr>"

definition example_world :: World where
  "example_world =
     \<lparr>w_config = example_config,
      w_adapters = fst (RadioManager_new [] example_config),
      w_radioManager = snd (RadioManager_new [] example_config),
      w_audit_log = [],
      w_cout = []\<rparr>"



section \<open>Properties of the adapter\<close>

lemmas adapter_defs =
  connect_def connect_steps_def set_power_def set_power_steps_def
  set_channel_def set_channel_steps_def refresh_state_def refresh_state_steps_def
  set_status_def result_ok_def

text \<open>
  Claim C1, as the code has it. For every radio id and every power value \<open>w\<close>, inside or
  outside the adapter's power range, \<^verbatim>\<open>set_power(w)\<close> of the adapter returns code
  \<open>Ok\<close>, stores \<open>w\<close> as \<open>power_watts\<close>, leaves the status \<open>Ready\<close> and changes
  neither the channel index nor the capabilities; \<^verbatim>\<open>Orchestrator::setPower(id, w)\<close>
  returns code \<open>Ok\<close> as well and changes neither the manager nor any adapter.
\<close>

theorem set_power_accepts_every_value:
  "code (fst (set_power a w)) = Ok
   \<and> m_state (snd (set_power a w)) = (m_state a)\<lparr>power_watts := Some w, status := Ready\<rparr>
   \<and> m_capabilities (snd (set_power a w)) = m_capabilities a
   \<and> cmd_code (fst (setPower wd i w)) = Code_Ok
   \<and> w_radioManager (snd (setPower wd i w)) = w_radioManager wd
   \<and> w_adapters (snd (setPower wd i w)) = w_adapters wd"
  by (simp add: adapter_defs setPower_def Let_def)

text \<open>
  Claim C1 as stated fails: 7 W is above the range (0.1, 5.0) of a new adapter, and
  \<^verbatim>\<open>set_power(7.0)\<close> answers \<open>Ok\<close> and changes the state; the orchestrator's
  \<^verbatim>\<open>setPower\<close> does not answer \<open>InvalidRange\<close> either.
\<close>

theorem set_power_out_of_range_counterexample:
  "snd (power_range_watts (capabilities (SilvusAdapter_new ''r1'' ''ep''))) < 7
   \<and> code (fst (set_power (SilvusAdapter_new ''r1'' ''ep'') 7)) \<noteq> InvalidRange
   \<and> m_state (snd (set_power (SilvusAdapter_new ''r1'' ''ep'') 7))
       \<noteq> m_state (SilvusAdapter_new ''r1'' ''ep'')
   \<and> cmd_code (fst (setPower example_world ''r1'' 7)) \<noteq> Code_InvalidRange"
  by (simp add: adapter_defs setPower_def Let_def SilvusAdapter_new_def capabilities_def
      RadioState_default_def)

text \<open>
  Claim C5, as the code has it. For every radio and every frequency, contained in the
  supported frequencies or not, \<^verbatim>\<open>set_channel(channel_index, frequency_mhz)\<close> returns
  code \<open>Ok\<close>, stores the channel index, leaves the status \<open>Ready\<close> and changes
  neither the power nor the capabilities: the frequency has no effect at all.
\<close>

theorem set_channel_ignores_frequency:
  "code (fst (set_channel a ci f)) = Ok
   \<and> m_state (snd (set_channel a ci f))
       = (m_state a)\<lparr>channel_index := Some ci, status := Ready\<rparr>
   \<and> m_capabilities (snd (set_channel a ci f)) = m_capabilities a
   \<and> set_channel a ci f = set_channel a ci f'"
  by (simp add: adapter_defs Let_def)

text \<open>
  Claim C5 as stated fails: 5000 MHz is not a supported frequency of a new adapter, and
  \<^verbatim>\<open>set_channel(3, 5000.0)\<close> answers \<open>Ok\<close> and changes the state.
\<close>

theorem set_channel_unsupported_frequency_counterexample:
  "5000 \<notin> set (supported_frequencies_mhz (capabilities (SilvusAdapter_new ''r1'' ''ep'')))
   \<and> code (fst (set_channel (SilvusAdapter_new ''r1'' ''ep'') 3 5000)) \<noteq> InvalidRange
   \<and> m_state (snd (set_channel (SilvusAdapter_new ''r1'' ''ep'') 3 5000))
       \<noteq> m_state (SilvusAdapter_new ''r1'' ''ep'')"
  by (simp add: adapter_defs Let_def SilvusAdapter_new_def capabilities_def
      RadioState_default_def)

text \<open>
  Claim C8. For every adapter whose status is \<open>Ready\<close>, \<^verbatim>\<open>connect()\<close> returns code
  \<open>Ok\<close> and leaves the status \<open>Ready\<close> and \<open>power_watts\<close> and \<open>channel_index\<close>
  as they were; indeed the whole adapter is unchanged.
\<close>

theorem connect_idempotent_when_ready:
  "status (m_state a) = Ready \<Longrightarrow>
   code (fst (connect a)) = Ok
   \<and> status (m_state (snd (connect a))) = Ready
   \<and> power_watts (m_state (snd (connect a))) = power_watts (m_state a)
   \<and> channel_index (m_state (snd (connect a))) = channel_index (m_state a)
   \<and> snd (connect a) = a"
  by (simp add: adapter_defs)

theorem connect_idempotent_when_ready_witness:
  "status (m_state (snd (set_power (SilvusAdapter_new ''r1'' ''ep'') 2))) = Ready
   \<and> code (fst (connect (snd (set_power (SilvusAdapter_new ''r1'' ''ep'') 2)))) = Ok
   \<and> power_watts (m_state (snd (connect (snd (set_power (SilvusAdapter_new ''r1'' ''ep'') 2)))))
       = Some 2
   \<and> snd (connect (snd (set_power (SilvusAdapter_new ''r1'' ''ep'') 2)))
       = snd (set_power (SilvusAdapter_new ''r1'' ''ep'') 2)"
proof -
  have ready: "status (m_state (snd (set_power (SilvusAdapter_new ''r1'' ''ep'') 2))) = Ready"
    by (simp add: adapter_defs Let_def)
  have stored: "power_watts (m_state (snd (set_power (SilvusAdapter_new ''r1'' ''ep'') 2))) = Some 2"
    by (simp add: adapter_defs Let_def)
  from connect_idempotent_when_ready [OF ready] ready stored show ?thesis
    by simp
qed

section \<open>The adapter's status against the state machine\<close>

text \<open>Between operations an adapter that started \<open>Offline\<close> is \<open>Offline\<close> or \<open>Ready\<close>.\<close>

lemma run_op_status_cases:
  "status (m_state a) \<in> {Offline, Ready} \<Longrightarrow>
   status (m_state (snd (run_op x a))) \<in> {Offline, Ready}"
  by (cases x) (auto simp: adapter_defs Let_def)

lemma run_ops_status_cases:
  "status (m_state a) \<in> {Offline, Ready} \<Longrightarrow>
   status (m_state (run_ops xs a)) \<in> {Offline, Ready}"
proof (induction xs arbitrary: a)
  case Nil
  then show ?case by simp
next
  case (Cons x xs)
  from Cons.prems have "status (m_state (snd (run_op x a))) \<in> {Offline, Ready}"
    by (rule run_op_status_cases)
  then have "status (m_state (run_ops xs (snd (run_op x a)))) \<in> {Offline, Ready}"
    by (rule Cons.IH)
  then show ?case by simp
qed

lemma new_adapter_offline: "status (m_state (SilvusAdapter_new i e)) = Offline"
  by (simp add: SilvusAdapter_new_def RadioState_default_def)

lemma status_trace_command:
  "is_command x \<Longrightarrow>
   status_trace x a = [status (m_state a), status (m_state a), Busy, Ready]"
  by (cases x) (simp_all add: status_trace_def adapter_defs Let_def)

lemma follows_table_non_command:
  "\<not> is_command x \<Longrightarrow> status (m_state a) \<in> {Offline, Ready} \<Longrightarrow> op_follows_table x a"
  by (cases x) (auto simp: op_follows_table_def status_trace_def adapter_defs table_4_3_def)

lemma follows_table_command:
  "is_command x \<Longrightarrow> status (m_state a) \<in> {Offline, Ready} \<Longrightarrow>
   op_follows_table x a = (status (m_state a) = Ready)"
  by (cases x) (auto simp: op_follows_table_def status_trace_command table_4_3_def)

text \<open>
  Claim C4, as the code has it. For every radio and every sequence of adapter operations
  on a newly constructed adapter, the status is one of the five values of the enum at
  every assignment (between operations it is \<open>Offline\<close> or \<open>Ready\<close>); every status
  change made by \<^verbatim>\<open>connect\<close> or \<^verbatim>\<open>refresh_state\<close>, and every one made by
  \<^verbatim>\<open>set_power\<close> or \<^verbatim>\<open>set_channel\<close> invoked while \<open>Ready\<close>, is a row of the table;
  \<^verbatim>\<open>set_power\<close> and \<^verbatim>\<open>set_channel\<close> invoked while \<open>Offline\<close> take the status from
  \<open>Offline\<close> to \<open>Busy\<close> to \<open>Ready\<close>, which the table does not permit.
\<close>

theorem adapter_status_transitions:
  assumes "a = run_ops xs (SilvusAdapter_new i e)"
  shows "status (m_state a) \<in> {Offline, Ready}
   \<and> set (status_trace x a) \<subseteq> {Offline, Discovering, Ready, Busy, Recovering}
   \<and> (\<not> is_command x \<longrightarrow> op_follows_table x a)
   \<and> (is_command x \<and> status (m_state a) = Ready \<longrightarrow> op_follows_table x a)
   \<and> (is_command x \<and> status (m_state a) = Offline \<longrightarrow>
        status_trace x a = [Offline, Offline, Busy, Ready] \<and> \<not> op_follows_table x a)"
proof -
  have st: "status (m_state a) \<in> {Offline, Ready}"
    unfolding assms by (rule run_ops_status_cases) (simp add: new_adapter_offline)
  have enum: "set (status_trace x a) \<subseteq> {Offline, Discovering, Ready, Busy, Recovering}"
  proof
    fix s assume "s \<in> set (status_trace x a)"
    show "s \<in> {Offline, Discovering, Ready, Busy, Recovering}" by (cases s) simp_all
  qed
  from st enum show ?thesis
    by (auto simp: follows_table_non_command follows_table_command status_trace_command)
qed

theorem adapter_status_transitions_witness:
  "status (m_state (run_ops [Connect] (SilvusAdapter_new ''r1'' ''ep''))) = Ready
   \<and> op_follows_table (SetChannel 3 2437) (run_ops [Connect] (SilvusAdapter_new ''r1'' ''ep''))
   \<and> op_follows_table RefreshState (run_ops [] (SilvusAdapter_new ''r1'' ''ep''))
   \<and> status (m_state (run_ops [] (SilvusAdapter_new ''r1'' ''ep''))) = Offline
   \<and> \<not> op_follows_table (SetPower 2) (run_ops [] (SilvusAdapter_new ''r1'' ''ep''))"
proof -
  have ready: "status (m_state (run_ops [Connect] (SilvusAdapter_new ''r1'' ''ep''))) = Ready"
    by (simp add: adapter_defs)
  have offline: "status (m_state (run_ops [] (SilvusAdapter_new ''r1'' ''ep''))) = Offline"
    by (simp add: new_adapter_offline)
  from adapter_status_transitions [OF refl, where x = "SetChannel 3 2437" and xs = "[Connect]"
         and i = "''r1''" and e = "''ep''"]
       adapter_status_transitions [OF refl, where x = RefreshState and xs = "[]"
         and i = "''r1''" and e = "''ep''"]
       adapter_status_transitions [OF refl, where x = "SetPower 2" and xs = "[]"
         and i = "''r1''" and e = "''ep''"]
       ready offline
  show ?thesis by simp
qed

text \<open>
  Claim C4 as stated fails: on a new adapter, which is \<open>Offline\<close>, \<^verbatim>\<open>set_power(2.0)\<close>
  assigns \<open>Busy\<close> and then \<open>Ready\<close>; the table has no row from \<open>Offline\<close> to
  \<open>Busy\<close>, and the command has moved an \<open>Offline\<close> radio to \<open>Ready\<close>.
\<close>

theorem command_while_offline_counterexample:
  "status (m_state (SilvusAdapter_new ''r1'' ''ep'')) = Offline
   \<and> status (m_state (snd (set_power (SilvusAdapter_new ''r1'' ''ep'') 2))) = Ready
   \<and> status_trace (SetPower 2) (SilvusAdapter_new ''r1'' ''ep'') = [Offline, Offline, Busy, Ready]
   \<and> \<not> table_4_3 Offline CommandInvoked Busy
   \<and> \<not> op_follows_table (SetPower 2) (SilvusAdapter_new ''r1'' ''ep'')"
  by (simp add: op_follows_table_def status_trace_def adapter_defs Let_def table_4_3_def
      SilvusAdapter_new_def RadioState_default_def)

section \<open>Properties of the radio manager\<close>

text \<open>
  A pointer can be followed exactly when it is not null and lies in the store, so only
  the size of the store matters, and no operation shrinks the store.
\<close>

lemma deref_Some_iff: "(\<exists>a. deref h p = Some a) = (\<exists>n. p = Some n \<and> n < length h)"
  by (cases p) (simp_all add: deref_def)

lemma deref_live_iff: "(deref h p \<noteq> None) = (\<exists>n. p = Some n \<and> n < length h)"
  using deref_Some_iff [of h p] by simp

lemma adapters_live_length:
  "adapters_live h rs \<Longrightarrow> length h \<le> length h' \<Longrightarrow> adapters_live h' rs"
  by (induction rs) (auto simp: adapters_live_def deref_Some_iff)

lemma adapters_live_emplace:
  "adapters_live h rs \<Longrightarrow> deref h (adapter d) \<noteq> None \<Longrightarrow> adapters_live h (emplace rs k d)"
  by (simp add: adapters_live_def emplace_def)

lemma length_assign: "length (assign h p a) = length h"
  by (cases p) (simp_all add: assign_def)

lemma call_adapter_length:
  "call_adapter h p x = Some (r, h') \<Longrightarrow> length h' = length h"
  by (auto simp: call_adapter_def length_assign split: option.splits)

lemma call_adapter_live:
  "deref h p \<noteq> None \<Longrightarrow> \<exists>r h'. call_adapter h p x = Some (r, h')"
  by (auto simp: call_adapter_def)

lemma adapters_live_same_ptrs:
  "map (\<lambda>kd. adapter (snd kd)) rs' = map (\<lambda>kd. adapter (snd kd)) rs \<Longrightarrow> length h' = length h \<Longrightarrow>
   adapters_live h' rs' = adapters_live h rs"
proof -
  assume ptrs: "map (\<lambda>kd. adapter (snd kd)) rs' = map (\<lambda>kd. adapter (snd kd)) rs"
    and len: "length h' = length h"
  have "adapters_live h' rs' = list_all (\<lambda>p. deref h' p \<noteq> None) (map (\<lambda>kd. adapter (snd kd)) rs')"
    by (simp add: adapters_live_def list_all_iff)
  also have "\<dots> = list_all (\<lambda>p. deref h p \<noteq> None) (map (\<lambda>kd. adapter (snd kd)) rs)"
    by (simp add: ptrs deref_Some_iff len)
  also have "\<dots> = adapters_live h rs"
    by (simp add: adapters_live_def list_all_iff)
  finally show ?thesis .
qed

lemma map_of_same_keys:
  "map fst rs' = map fst rs \<Longrightarrow> (map_of rs' i = None) = (map_of rs i = None)"
  by (metis list.set_map map_of_eq_None_iff)

text \<open>The constructor leaves every descriptor with a stored adapter and no active radio.\<close>

lemma load_radios_live:
  "adapters_live h rs \<Longrightarrow>
   adapters_live (fst (load_radios ps (h, rs))) (snd (load_radios ps (h, rs)))"
proof (induction ps arbitrary: h rs)
  case Nil
  then show ?case by simp
next
  case (Cons radio rest)
  show ?case
  proof (cases "profile_adapter radio = ''silvus''")
    case False
    with Cons show ?thesis by simp
  next
    case True
    define a where "a = SilvusAdapter_new (profile_id radio) (profile_endpoint radio)"
    define d where "d = \<lparr>descriptor_id = profile_id radio, adapter_type = profile_adapter radio,
                         adapter = Some (length h), state = SilvusAdapter_state a\<rparr>"
    have live: "adapters_live (h @ [a]) rs"
      using Cons.prems by (rule adapters_live_length) simp
    have "deref (h @ [a]) (adapter d) \<noteq> None"
      by (simp add: d_def deref_Some_iff)
    with live have "adapters_live (h @ [a]) (emplace rs (profile_id radio) d)"
      by (rule adapters_live_emplace)
    then have "adapters_live (fst (load_radios rest (h @ [a], emplace rs (profile_id radio) d)))
                 (snd (load_radios rest (h @ [a], emplace rs (profile_id radio) d)))"
      by (rule Cons.IH)
    with True show ?thesis
      by (simp add: make_shared_def a_def d_def Let_def)
  qed
qed

lemma load_from_config_live:
  "adapters_live (fst (load_from_config c hm)) (m_radios (snd (load_from_config c hm)))"
proof -
  have "adapters_live (fst hm) []" by (simp add: adapters_live_def)
  then have "adapters_live (fst (load_radios (radios c) (fst hm, [])))
               (snd (load_radios (radios c) (fst hm, [])))"
    by (rule load_radios_live)
  then show ?thesis
    by (simp add: load_from_config_def split_beta)
qed

lemma RadioManager_new_inv: "registry_inv (RadioManager_new h0 c)"
  using load_from_config_live [of c "(h0, \<lparr>m_radios = [], m_active_radio = None\<rparr>)"]
  by (simp add: registry_inv_def RadioManager_new_def active_radio_known_def
      load_from_config_def split_beta)

text \<open>
  \<^verbatim>\<open>start\<close> follows no bad pointer when every descriptor's adapter is stored, and
  it keeps the keys, the pointers and the active radio.
\<close>

lemma start_loop_total:
  "adapters_live h rs \<Longrightarrow>
   \<exists>h' rs'. start_loop rs h = Some (h', rs') \<and> length h' = length h
      \<and> map fst rs' = map fst rs \<and> map (\<lambda>kd. adapter (snd kd)) rs' = map (\<lambda>kd. adapter (snd kd)) rs"
proof (induction rs arbitrary: h)
  case Nil
  then show ?case by simp
next
  case (Cons kd rest)
  obtain k d where kd: "kd = (k, d)" by (cases kd)
  from Cons.prems kd have d_live: "deref h (adapter d) \<noteq> None" and rest_live: "adapters_live h rest"
    by (simp_all add: adapters_live_def)
  from d_live obtain r h1 where call: "call_adapter h (adapter d) Connect = Some (r, h1)"
    using call_adapter_live by blast
  then have len1: "length h1 = length h" by (rule call_adapter_length)
  from d_live len1 have "deref h1 (adapter d) \<noteq> None" by (simp add: deref_Some_iff)
  then obtain a where a: "deref h1 (adapter d) = Some a" by blast
  from rest_live len1 have "adapters_live h1 rest" by (simp add: adapters_live_length)
  then obtain h2 rest' where rec: "start_loop rest h1 = Some (h2, rest')"
      and len2: "length h2 = length h1" and keys: "map fst rest' = map fst rest"
      and ptrs: "map (\<lambda>kd. adapter (snd kd)) rest' = map (\<lambda>kd. adapter (snd kd)) rest"
    using Cons.IH by blast
  show ?case
    by (simp add: kd call a rec len1 len2 keys ptrs)
qed

lemma start_inv:
  assumes "registry_inv hm"
  shows "\<exists>hm'. start hm = Some hm' \<and> registry_inv hm'
           \<and> m_active_radio (snd hm') = m_active_radio (snd hm)
           \<and> map fst (m_radios (snd hm')) = map fst (m_radios (snd hm))"
proof -
  from assms have live: "adapters_live (fst hm) (m_radios (snd hm))"
    and known: "active_radio_known (snd hm)"
    by (simp_all add: registry_inv_def)
  from start_loop_total [OF live] obtain h' rs' where
      loop: "start_loop (m_radios (snd hm)) (fst hm) = Some (h', rs')"
      and len: "length h' = length (fst hm)"
      and keys: "map fst rs' = map fst (m_radios (snd hm))"
      and ptrs: "map (\<lambda>kd. adapter (snd kd)) rs' = map (\<lambda>kd. adapter (snd kd)) (m_radios (snd hm))"
    by blast
  have st: "start hm = Some (h', (snd hm)\<lparr>m_radios := rs'\<rparr>)"
    by (simp add: start_def loop)
  have live': "adapters_live h' rs'"
    using adapters_live_same_ptrs [OF ptrs len] live by simp
  have known': "active_radio_known ((snd hm)\<lparr>m_radios := rs'\<rparr>)"
    using known map_of_same_keys [OF keys]
    by (simp add: active_radio_known_def split: option.splits)
  show ?thesis
    by (simp add: st registry_inv_def live' known' keys)
qed

text \<open>The invariant is kept by every public member function and by every adapter call.\<close>

lemma run_registry_op_inv:
  assumes "registry_inv hm" and "is_public x"
  shows "\<exists>hm'. run_registry_op x hm = Some hm' \<and> registry_inv hm'"
proof (cases x)
  case (SetActiveRadio i)
  with assms show ?thesis
    by (auto simp: registry_inv_def set_active_radio_def active_radio_known_def
        split: option.splits)
next
  case Stop
  with assms show ?thesis
    by (simp add: registry_inv_def stop_def active_radio_known_def adapters_live_def)
next
  case Start
  with start_inv [OF assms(1)] show ?thesis by auto
next
  case (LoadFromConfig c)
  with assms show ?thesis by simp
qed

lemma run_registry_ops_inv:
  "registry_inv hm \<Longrightarrow> list_all is_public xs \<Longrightarrow>
   \<exists>hm'. run_registry_ops xs hm = Some hm' \<and> registry_inv hm'"
proof (induction xs arbitrary: hm)
  case Nil
  then show ?case by simp
next
  case (Cons x xs)
  from Cons.prems have "is_public x" and rest: "list_all is_public xs" by simp_all
  with Cons.prems(1) obtain hm1 where step: "run_registry_op x hm = Some hm1" and inv1: "registry_inv hm1"
    using run_registry_op_inv by blast
  from Cons.IH [OF inv1 rest] step show ?case by simp
qed

lemma reachable_inv: "reachable hm \<Longrightarrow> registry_inv hm"
proof (induction rule: reachable.induct)
  case (constructed h0 config)
  show ?case by (rule RadioManager_new_inv)
next
  case (member_call hm x hm')
  with run_registry_op_inv [of hm x] show ?case by auto
next
  case (adapter_call h m p x r h')
  from adapter_call.hyps(2) have "length h' = length h" by (rule call_adapter_length)
  with adapter_call.IH show ?case
    using adapters_live_length [of h "m_radios m" h']
    by (simp add: registry_inv_def)
qed

text \<open>The manager built from \<open>example_config\<close>: one radio, \<open>r1\<close>; the entry \<open>r2\<close> is skipped.\<close>

lemma example_manager:
  "RadioManager_new [] example_config =
     ([SilvusAdapter_new ''r1'' ''10.0.0.1''],
      \<lparr>m_radios = [(''r1'', \<lparr>descriptor_id = ''r1'', adapter_type = ''silvus'',
                              adapter = Some 0, state = RadioState_default\<rparr>)],
       m_active_radio = None\<rparr>)"
  by (simp add: RadioManager_new_def load_from_config_def example_config_def make_shared_def
      emplace_def SilvusAdapter_new_def SilvusAdapter_state_def RadioState_default_def)

text \<open>
  Claim C6. A manager comes into being through its constructor, which runs
  \<^verbatim>\<open>load_from_config\<close> while no radio is active; \<^verbatim>\<open>load_from_config\<close> is a
  private member function and the constructor is its only caller, so after construction
  a program can only call \<^verbatim>\<open>set_active_radio\<close>, \<^verbatim>\<open>stop\<close> and \<^verbatim>\<open>start\<close>. In
  every state reached from construction, with any configuration, through any sequence
  of these operations, every operation returns and, if the active radio is set, it is a
  key of the descriptor map.
\<close>

theorem active_radio_always_known:
  "list_all is_public xs \<Longrightarrow>
   \<exists>h m. run_registry_ops xs (RadioManager_new h0 config) = Some (h, m) \<and> active_radio_known m"
  using run_registry_ops_inv [OF RadioManager_new_inv, of xs h0 config]
  by (auto simp: registry_inv_def)

theorem active_radio_always_known_witness:
  "list_all is_public [Start, SetActiveRadio ''r1'', SetActiveRadio ''ghost'']
   \<and> map_option (\<lambda>hm. m_active_radio (snd hm))
        (run_registry_ops [Start, SetActiveRadio ''r1'', SetActiveRadio ''ghost'']
           (RadioManager_new [] example_config)) = Some (Some ''r1'')
   \<and> (\<exists>h m. run_registry_ops [Start, SetActiveRadio ''r1'', SetActiveRadio ''ghost'']
           (RadioManager_new [] example_config) = Some (h, m) \<and> active_radio_known m)"
proof -
  have pub: "list_all is_public [Start, SetActiveRadio ''r1'', SetActiveRadio ''ghost'']"
    by simp
  have run: "map_option (\<lambda>hm. m_active_radio (snd hm))
        (run_registry_ops [Start, SetActiveRadio ''r1'', SetActiveRadio ''ghost'']
           (RadioManager_new [] example_config)) = Some (Some ''r1'')"
    by (simp add: example_manager start_def call_adapter_def deref_def assign_def
        adapter_defs set_active_radio_def SilvusAdapter_state_def)
  from pub run active_radio_always_known [OF pub, of "[]" example_config]
  show ?thesis by simp
qed

text \<open>
  Claim C7. In every reachable state and for every radio id known to the manager,
  calling \<^verbatim>\<open>set_channel(3, 2437.0)\<close> on the adapter that \<^verbatim>\<open>get_adapter(id)\<close> returns
  succeeds with code \<open>Ok\<close>, and \<^verbatim>\<open>get_state(id)\<close> afterwards returns a state whose
  \<open>channel_index\<close> is 3.
\<close>

theorem set_channel_round_trip:
  assumes "reachable (h, m)" and "map_of (m_radios m) i \<noteq> None"
  shows "\<exists>r h'. call_adapter h (get_adapter m i) (SetChannel 3 2437) = Some (r, h')
           \<and> code r = Ok
           \<and> map_option channel_index (get_state h' m i) = Some (Some 3)"
proof -
  from assms(2) obtain d where d: "map_of (m_radios m) i = Some d" by blast
  then have "(i, d) \<in> set (m_radios m)" by (rule map_of_SomeD)
  moreover from reachable_inv [OF assms(1)] have "adapters_live h (m_radios m)"
    by (simp add: registry_inv_def)
  ultimately have "deref h (adapter d) \<noteq> None"
    by (auto simp: adapters_live_def list_all_iff)
  then have "\<exists>n. adapter d = Some n \<and> n < length h"
    by (simp only: deref_live_iff)
  then obtain n where n: "adapter d = Some n" "n < length h"
    by blast
  show ?thesis
    by (simp add: get_adapter_def get_state_def d n call_adapter_def deref_def assign_def
        adapter_defs Let_def SilvusAdapter_state_def)
qed

theorem set_channel_round_trip_witness:
  "reachable (RadioManager_new [] example_config)
   \<and> map_of (m_radios (snd (RadioManager_new [] example_config))) ''r1'' \<noteq> None
   \<and> (\<exists>r h'. call_adapter (fst (RadioManager_new [] example_config))
                 (get_adapter (snd (RadioManager_new [] example_config)) ''r1'')
                 (SetChannel 3 2437) = Some (r, h')
           \<and> code r = Ok
           \<and> map_option channel_index
                (get_state h' (snd (RadioManager_new [] example_config)) ''r1'') = Some (Some 3))"
proof -
  have r: "reachable (fst (RadioManager_new [] example_config), snd (RadioManager_new [] example_config))"
    using reachable.constructed [of "[]" example_config] by simp
  have k: "map_of (m_radios (snd (RadioManager_new [] example_config))) ''r1'' \<noteq> None"
    by (simp add: example_manager)
  from set_channel_round_trip [OF r k] r k show ?thesis by simp
qed

text \<open>
  Claim C9. For every id that is not a key of the descriptor map, \<^verbatim>\<open>get_state(id)\<close>
  returns the default \<^verbatim>\<open>RadioState\<close> (status \<open>Offline\<close>, no channel index, no
  power) and no error. A known radio, of this or of any other manager, whose adapter is
  \<open>Offline\<close> and has no channel index and no power gives exactly the same answer, so
  the answer does not tell the two apart.
\<close>

theorem get_state_unknown_is_default:
  assumes "map_of (m_radios m) unknown = None"
  shows "get_state h m unknown
           = Some \<lparr>status = Offline, channel_index = None, power_watts = None\<rparr>
         \<and> (map_of (m_radios m') known = Some d \<and> deref h' (adapter d) = Some a
              \<and> m_state a = \<lparr>status = Offline, channel_index = None, power_watts = None\<rparr>
             \<longrightarrow> get_state h' m' known = get_state h m unknown)"
  using assms by (simp add: get_state_def RadioState_default_def SilvusAdapter_state_def)

text \<open>
  On the example: after \<^verbatim>\<open>stop()\<close> the id \<open>r1\<close> is unknown and its state reads as
  the default, which is what it read as before \<^verbatim>\<open>stop()\<close>, when \<open>r1\<close> was a
  configured radio that was \<open>Offline\<close>; the id \<open>ghost\<close>, never configured, reads the
  same.
\<close>

theorem get_state_unknown_is_default_witness:
  "map_of (m_radios (stop (snd (RadioManager_new [] example_config)))) ''r1'' = None
   \<and> map_of (m_radios (snd (RadioManager_new [] example_config))) ''r1'' \<noteq> None
   \<and> get_state (fst (RadioManager_new [] example_config))
        (stop (snd (RadioManager_new [] example_config))) ''r1''
       = Some \<lparr>status = Offline, channel_index = None, power_watts = None\<rparr>
   \<and> get_state (fst (RadioManager_new [] example_config))
        (snd (RadioManager_new [] example_config)) ''r1''
       = get_state (fst (RadioManager_new [] example_config))
           (stop (snd (RadioManager_new [] example_config))) ''r1''
   \<and> map_of (m_radios (snd (RadioManager_new [] example_config))) ''ghost'' = None
   \<and> get_state (fst (RadioManager_new [] example_config))
        (snd (RadioManager_new [] example_config)) ''ghost''
       = Some \<lparr>status = Offline, channel_index = None, power_watts = None\<rparr>"
proof -
  let ?h = "fst (RadioManager_new [] example_config)"
  let ?m = "snd (RadioManager_new [] example_config)"
  let ?d = "\<lparr>descriptor_id = ''r1'', adapter_type = ''silvus'', adapter = Some 0,
             state = RadioState_default\<rparr>"
  have u: "map_of (m_radios (stop ?m)) ''r1'' = None" by (simp add: stop_def)
  have g: "map_of (m_radios ?m) ''ghost'' = None" by (simp add: example_manager)
  have k: "map_of (m_radios ?m) ''r1'' = Some ?d" by (simp add: example_manager)
  have l: "deref ?h (adapter ?d) = Some (SilvusAdapter_new ''r1'' ''10.0.0.1'')"
    by (simp add: example_manager deref_def)
  have s: "m_state (SilvusAdapter_new ''r1'' ''10.0.0.1'')
             = \<lparr>status = Offline, channel_index = None, power_watts = None\<rparr>"
    by (simp add: SilvusAdapter_new_def RadioState_default_def)
  from get_state_unknown_is_default
         [OF u, where h = ?h and m' = ?m and known = "''r1''" and d = ?d and h' = ?h
            and a = "SilvusAdapter_new ''r1'' ''10.0.0.1''"]
  have stopped: "get_state ?h (stop ?m) ''r1''
                   = Some \<lparr>status = Offline, channel_index = None, power_watts = None\<rparr>"
    and same: "get_state ?h ?m ''r1'' = get_state ?h (stop ?m) ''r1''"
    using k l s by blast+
  from get_state_unknown_is_default
         [OF g, where h = ?h and m' = ?m and known = "''r1''" and d = ?d and h' = ?h
            and a = "SilvusAdapter_new ''r1'' ''10.0.0.1''"]
  have ghost: "get_state ?h ?m ''ghost''
                 = Some \<lparr>status = Offline, channel_index = None, power_watts = None\<rparr>"
    by blast
  from k have known: "map_of (m_radios ?m) ''r1'' \<noteq> None"
    by (simp only: option.distinct not_False_eq_True)
  show ?thesis
    using u known stopped same g ghost by (intro conjI)
qed

text \<open>
  Claim C10. For every id that is not a key of the descriptor map,
  \<^verbatim>\<open>set_active_radio(id)\<close> returns false and leaves the manager as it was: the
  active radio and every descriptor are unchanged.
\<close>

theorem set_active_radio_unknown_atomic:
  "map_of (m_radios m) i = None \<Longrightarrow>
   fst (set_active_radio m i) = False
   \<and> snd (set_active_radio m i) = m
   \<and> active_radio (snd (set_active_radio m i)) = active_radio m
   \<and> list_radios (snd (set_active_radio m i)) = list_radios m"
  by (simp add: set_active_radio_def)

theorem set_active_radio_unknown_atomic_witness:
  "map_of (m_radios (snd (set_active_radio (snd (RadioManager_new [] example_config)) ''r1'')))
     ''ghost'' = None
   \<and> active_radio (snd (set_active_radio (snd (RadioManager_new [] example_config)) ''r1''))
       = Some ''r1''
   \<and> fst (set_active_radio
            (snd (set_active_radio (snd (RadioManager_new [] example_config)) ''r1''))
            ''ghost'') = False
   \<and> snd (set_active_radio
            (snd (set_active_radio (snd (RadioManager_new [] example_config)) ''r1''))
            ''ghost'')
       = snd (set_active_radio (snd (RadioManager_new [] example_config)) ''r1'')"
proof -
  let ?m = "snd (set_active_radio (snd (RadioManager_new [] example_config)) ''r1'')"
  have u: "map_of (m_radios ?m) ''ghost'' = None"
    by (simp add: example_manager set_active_radio_def)
  have a: "active_radio ?m = Some ''r1''"
    by (simp add: example_manager set_active_radio_def active_radio_def)
  from set_active_radio_unknown_atomic [OF u] u a show ?thesis by simp
qed


section \<open>Properties of the orchestrator\<close>

text \<open>
  Claim C2, as the code has it. Every dispatched command (\<^verbatim>\<open>selectRadio\<close>,
  \<^verbatim>\<open>setPower\<close>, \<^verbatim>\<open>setChannel\<close>), for any radio id and any argument, returns one
  result, with code \<open>Ok\<close> and message \<open>stub\<close>, and creates no audit record:
  \<^verbatim>\<open>AuditLogger::record\<close> is not called, and the audit log is unchanged.
\<close>

theorem dispatch_creates_no_audit_record:
  "cmd_code (fst (dispatch c w)) = Code_Ok
   \<and> cmd_message (fst (dispatch c w)) = ''stub''
   \<and> w_audit_log (snd (dispatch c w)) = w_audit_log w"
  by (cases c) (simp_all add: selectRadio_def setPower_def setChannel_def)

text \<open>
  Claim C2 as stated fails: after \<^verbatim>\<open>setPower("r1", 2.0)\<close> the audit log is not one
  record longer, and after \<^verbatim>\<open>selectRadio("ghost")\<close> it is still empty.
\<close>

theorem dispatch_audit_record_counterexample:
  "length (w_audit_log (snd (dispatch (SetPowerCmd ''r1'' 2) example_world)))
     \<noteq> length (w_audit_log example_world) + 1
   \<and> w_audit_log (snd (dispatch (SelectRadio ''ghost'') example_world)) = []"
  by (simp add: setPower_def selectRadio_def example_world_def)

text \<open>
  Claim C3, as the code has it. For every radio id, present in the manager or not,
  \<^verbatim>\<open>Orchestrator::selectRadio(id)\<close> returns code \<open>Ok\<close> and leaves the manager, and
  so the active radio, unchanged. The check of existence is in
  \<^verbatim>\<open>RadioManager::set_active_radio(id)\<close>: it returns true and makes \<open>id\<close> the
  active radio when \<open>id\<close> is present, and returns false and keeps the active radio
  when it is not.
\<close>

theorem select_radio_always_ok:
  "cmd_code (fst (selectRadio w i)) = Code_Ok
   \<and> w_radioManager (snd (selectRadio w i)) = w_radioManager w
   \<and> fst (set_active_radio m i) = (map_of (m_radios m) i \<noteq> None)
   \<and> active_radio (snd (set_active_radio m i))
       = (if map_of (m_radios m) i = None then active_radio m else Some i)"
  by (simp add: selectRadio_def set_active_radio_def active_radio_def)

text \<open>
  Claim C3 as stated fails: \<open>ghost\<close> is not a radio of the example manager and
  \<^verbatim>\<open>selectRadio("ghost")\<close> does not answer \<open>Unavailable\<close>; \<open>r1\<close> is one, and after
  \<^verbatim>\<open>selectRadio("r1")\<close> no radio is active.
\<close>

theorem select_unknown_radio_counterexample:
  "map_of (m_radios (w_radioManager example_world)) ''ghost'' = None
   \<and> cmd_code (fst (selectRadio example_world ''ghost'')) \<noteq> Code_Unavailable
   \<and> map_of (m_radios (w_radioManager example_world)) ''r1'' \<noteq> None
   \<and> active_radio (w_radioManager (snd (selectRadio example_world ''r1''))) = None"
  by (simp add: selectRadio_def example_world_def example_manager active_radio_def)

end
